theory Spec2Isabelle
  imports Complex_Main "HOL-Library.Sublist"
begin

section \<open>Numbers of the client\<close>

text \<open>
  The client (\<^verbatim>\<open>frontend/src/App.jsx\<close>) computes with JavaScript numbers: binary64
  values, the two infinities and \<^verbatim>\<open>NaN\<close>. A finite value is the real it denotes; the
  two zeros are one. Every arithmetic operation rounds its exact result to the nearest
  binary64 value, ties to the even significand, and overflows to an infinity.
\<close>

datatype number = NaN | Infinity | NegInfinity | Num real

definition round_half_even :: "real \<Rightarrow> int" where
  "round_half_even y =
     (let f = \<lfloor>y\<rfloor>; d = y - of_int f
      in if d < 1 / 2 then f else if 1 / 2 < d then f + 1 else if even f then f else f + 1)"

text \<open>
  The spacing of the binary64 values around \<open>x\<close>: 52 binary places below the leading
  bit of \<open>x\<close>, and the spacing of the subnormal values below \<open>2\<^sup>-\<^sup>1\<^sup>0\<^sup>2\<^sup>2\<close>.
\<close>

definition quantum :: "real \<Rightarrow> real" where
  "quantum x = 2 powi (max \<lfloor>log 2 \<bar>x\<bar>\<rfloor> (- 1022) - 52)"

definition round64 :: "real \<Rightarrow> number" where
  "round64 x =
     (if x = 0 then Num 0
      else (let y = of_int (round_half_even (x / quantum x)) * quantum x
            in if 2 ^ 1024 \<le> \<bar>y\<bar> then (if 0 < x then Infinity else NegInfinity)
               else Num y))"

definition isNaN :: "number \<Rightarrow> bool" where
  "isNaN a = (a = NaN)"

text \<open>The comparisons \<^verbatim>\<open><\<close> and \<^verbatim>\<open><=\<close>: false as soon as one side is \<^verbatim>\<open>NaN\<close>.\<close>

fun num_lt :: "number \<Rightarrow> number \<Rightarrow> bool" where
  "num_lt NaN b = False"
| "num_lt a NaN = False"
| "num_lt a NegInfinity = False"
| "num_lt NegInfinity b = True"
| "num_lt Infinity b = False"
| "num_lt (Num x) Infinity = True"
| "num_lt (Num x) (Num y) = (x < y)"

definition num_le :: "number \<Rightarrow> number \<Rightarrow> bool" where
  "num_le a b = (a \<noteq> NaN \<and> b \<noteq> NaN \<and> (a = b \<or> num_lt a b))"



fun math_floor :: "number \<Rightarrow> number" where
  "math_floor (Num x) = Num (of_int \<lfloor>x\<rfloor>)"
| "math_floor a = a"

text \<open>The operators \<^verbatim>\<open>+\<close>, \<^verbatim>\<open>-\<close>, \<^verbatim>\<open>*\<close>, \<^verbatim>\<open>/\<close> and \<^verbatim>\<open>%\<close>.\<close>

fun num_neg :: "number \<Rightarrow> number" where
  "num_neg NaN = NaN"
| "num_neg Infinity = NegInfinity"
| "num_neg NegInfinity = Infinity"
| "num_neg (Num x) = Num (- x)"

fun num_add :: "number \<Rightarrow> number \<Rightarrow> number" where
  "num_add NaN b = NaN"
| "num_add a NaN = NaN"
| "num_add Infinity NegInfinity = NaN"
| "num_add NegInfinity Infinity = NaN"
| "num_add Infinity b = Infinity"
| "num_add a Infinity = Infinity"
| "num_add NegInfinity b = NegInfinity"
| "num_add a NegInfinity = NegInfinity"
| "num_add (Num x) (Num y) = round64 (x + y)"


fun num_mul :: "number \<Rightarrow> number \<Rightarrow> number" where
  "num_mul NaN b = NaN"
| "num_mul a NaN = NaN"
| "num_mul (Num x) (Num y) = round64 (x * y)"
| "num_mul (Num x) b = (if x = 0 then NaN else if 0 < x then b else num_neg b)"
| "num_mul a (Num y) = (if y = 0 then NaN else if 0 < y then a else num_neg a)"
| "num_mul a b = (if a = b then Infinity else NegInfinity)"

fun num_div :: "number \<Rightarrow> number \<Rightarrow> number" where
  "num_div NaN b = NaN"
| "num_div a NaN = NaN"
| "num_div (Num x) (Num y) =
     (if y = 0 then (if x = 0 then NaN else if 0 < x then Infinity else NegInfinity)
      else round64 (x / y))"
| "num_div (Num x) b = Num 0"
| "num_div a (Num y) = (if 0 \<le> y then a else num_neg a)"
| "num_div a b = NaN"

definition js_trunc :: "real \<Rightarrow> int" where
  "js_trunc x = (if 0 \<le> x then \<lfloor>x\<rfloor> else \<lceil>x\<rceil>)"

text \<open>The remainder has the sign of the dividend and is exact.\<close>

fun num_rem :: "number \<Rightarrow> number \<Rightarrow> number" where
  "num_rem (Num x) (Num y) = (if y = 0 then NaN else Num (x - y * of_int (js_trunc (x / y))))"
| "num_rem (Num x) Infinity = Num x"
| "num_rem (Num x) NegInfinity = Num x"
| "num_rem a b = NaN"

text \<open>The operands of \<^verbatim>\<open>||\<close> and \<^verbatim>\<open>&&\<close>: \<^verbatim>\<open>0\<close> and \<^verbatim>\<open>NaN\<close> are falsy.\<close>

definition num_truthy :: "number \<Rightarrow> bool" where
  "num_truthy a = (a \<noteq> NaN \<and> a \<noteq> Num 0)"

definition num_or :: "number \<Rightarrow> number \<Rightarrow> number" where
  "num_or a d = (if num_truthy a then a else d)"

section \<open>Strings of the client\<close>

text \<open>
  A string is the list of its code units, a \<open>char\<close> standing for the code unit of the
  same value (so the strings of the model are those with code units below 256).

  Two texts are chosen by the JavaScript engine and not by the client: the text of a
  finite number that is not a whole number below \<open>2\<^sup>5\<^sup>3\<close> in absolute value (the
  shortest digits that read back as the number, with an exponent from \<open>10\<^sup>2\<^sup>1\<close> on),
  and the message of the \<^verbatim>\<open>TypeError\<close> for reading a property of \<^verbatim>\<open>null\<close>. The
  functions that produce them take the engine as a parameter.
\<close>

record engine =
  number_text :: "real \<Rightarrow> string"
  null_read_message :: string

definition digit_char :: "nat \<Rightarrow> char" where
  "digit_char d = ''0123456789'' ! d"

fun decimal :: "nat \<Rightarrow> string" where
  "decimal n = (if n < 10 then [digit_char n] else decimal (n div 10) @ [digit_char (n mod 10)])"

declare decimal.simps [simp del]

text \<open>\<^verbatim>\<open>a.toString()\<close>: a whole number below \<open>2\<^sup>5\<^sup>3\<close> is printed with all its digits.\<close>

definition toString :: "engine \<Rightarrow> number \<Rightarrow> string" where
  "toString g a =
     (case a of
        NaN \<Rightarrow> ''NaN''
      | Infinity \<Rightarrow> ''Infinity''
      | NegInfinity \<Rightarrow> ''-Infinity''
      | Num x \<Rightarrow>
          if of_int \<lfloor>x\<rfloor> = x \<and> \<bar>x\<bar> < 2 ^ 53
          then (if x < 0 then CHR ''-'' # decimal (nat (- \<lfloor>x\<rfloor>)) else decimal (nat \<lfloor>x\<rfloor>))
          else number_text g x)"

text \<open>\<^verbatim>\<open>s.padStart(2, '0')\<close>\<close>

definition padStart2 :: "string \<Rightarrow> string" where
  "padStart2 s = replicate (2 - length s) (CHR ''0'') @ s"

text \<open>\<^verbatim>\<open>s.split(sep)\<close> for a separator of one code unit; the empty string gives one empty part.\<close>

fun split :: "char \<Rightarrow> string \<Rightarrow> string list" where
  "split sep [] = [[]]"
| "split sep (c # cs) =
     (if c = sep then [] # split sep cs
      else (case split sep cs of [] \<Rightarrow> [[c]] | p # ps \<Rightarrow> (c # p) # ps))"

text \<open>
  \<^verbatim>\<open>parseInt(s, 10)\<close>: leading white space is skipped, one sign is read, then the longest
  run of decimal digits; no digit gives \<^verbatim>\<open>NaN\<close>. What follows the digits is ignored.
  The result is the binary64 value nearest to the integer the digits denote, an infinity
  when that is beyond the range.
\<close>

definition isWhiteSpace :: "char \<Rightarrow> bool" where
  "isWhiteSpace c = (of_char c \<in> {9, 10, 11, 12, 13, 32, 160 :: nat})"

definition isDigit :: "char \<Rightarrow> bool" where
  "isDigit c = (c \<in> set ''0123456789'')"

definition digit_val :: "char \<Rightarrow> nat" where
  "digit_val c = of_char c - 48"

definition digits_val :: "string \<Rightarrow> nat" where
  "digits_val ds = foldl (\<lambda>acc c. 10 * acc + digit_val c) 0 ds"

definition parseInt :: "string \<Rightarrow> number" where
  "parseInt s =
     (let t = dropWhile isWhiteSpace s;
          (negative, u) = (case t of
                             [] \<Rightarrow> (False, t)
                           | c # r \<Rightarrow> if c = CHR ''-'' then (True, r)
                                      else if c = CHR ''+'' then (False, r) else (False, t));
          ds = takeWhile isDigit u
      in if ds = [] then NaN
         else if negative then num_neg (round64 (real (digits_val ds)))
         else round64 (real (digits_val ds)))"

section \<open>formatTime and parseTimeInput\<close>

text \<open>
  \<^verbatim>\<open>
  const formatTime = (seconds) => {
    if (isNaN(seconds) || seconds < 0) return "00:00";
    const mins = Math.floor(seconds / 60);
    const secs = Math.floor(seconds % 60);
    return `${mins.toString().padStart(2, '0')}:${secs.toString().padStart(2, '0')}`;
  };
  \<close>
\<close>

definition formatTime :: "engine \<Rightarrow> number \<Rightarrow> string" where
  "formatTime g seconds =
     (if isNaN seconds \<or> num_lt seconds (Num 0) then ''00:00''
      else (let mins = math_floor (num_div seconds (Num 60));
                secs = math_floor (num_rem seconds (Num 60))
            in padStart2 (toString g mins) @ '':'' @ padStart2 (toString g secs)))"

text \<open>
  \<^verbatim>\<open>
  const parseTimeInput = (timeStr) => {
    const parts = timeStr.split(':');
    if (parts.length !== 2) return 0;
    const mins = parseInt(parts[0], 10);
    const secs = parseInt(parts[1], 10);
    if (isNaN(mins) || isNaN(secs)) return 0;
    return (mins * 60) + secs;
  };
  \<close>
\<close>

definition parseTimeInput :: "string \<Rightarrow> number" where
  "parseTimeInput timeStr =
     (let parts = split (CHR '':'') timeStr
      in if length parts \<noteq> 2 then Num 0
         else (let mins = parseInt (parts ! 0);
                   secs = parseInt (parts ! 1)
               in if isNaN mins \<or> isNaN secs then Num 0
                  else num_add (num_mul mins (Num 60)) secs))"

section \<open>The TimeInput component\<close>


section \<open>State of the App component\<close>

record form_data =
  url :: string
  title :: string
  artist :: string
  album :: string
  genre :: string
  start :: number
  end' :: number

text \<open>
  The audio element behind \<^verbatim>\<open>audioRef.current\<close>, as far as the handlers touch it. Its
  \<^verbatim>\<open>currentTime\<close> is always finite: assigning \<^verbatim>\<open>NaN\<close> or an infinity to it throws a
  \<^verbatim>\<open>TypeError\<close> and leaves it as it is.
\<close>

record audio =
  paused :: bool
  position :: real
  src :: string
  duration :: number

record app_state =
  formData :: form_data
  status :: string
  isConverted :: bool
  isPlaying :: bool
  error :: "string option"
  rangeValues :: "number \<times> number"
  audioDuration :: number
  audioUrl :: string
  currentTime :: real
  videoTitle :: string
  audioRef :: "audio option"

definition initial :: app_state where
  "initial =
     \<lparr>formData = \<lparr>url = '''', title = '''', artist = '''', album = '''', genre = '''',
                   start = Num 0, end' = Num 0\<rparr>,
      status = '''', isConverted = False, isPlaying = False, error = None,
      rangeValues = (Num 0, Num 1000), audioDuration = Num 1000, audioUrl = '''',
      currentTime = 0, videoTitle = '''', audioRef = None\<rparr>"

text \<open>
  \<^verbatim>\<open>handleChange\<close> stores the value of the input under the input's name. The inputs
  the component renders are named url, title, artist, album and genre.
\<close>

datatype field = Url | Title | Artist | Album | Genre

definition handleChange :: "field \<Rightarrow> string \<Rightarrow> app_state \<Rightarrow> app_state" where
  "handleChange name v s =
     s\<lparr>formData :=
         (case name of
            Url \<Rightarrow> (formData s)\<lparr>url := v\<rparr>
          | Title \<Rightarrow> (formData s)\<lparr>title := v\<rparr>
          | Artist \<Rightarrow> (formData s)\<lparr>artist := v\<rparr>
          | Album \<Rightarrow> (formData s)\<lparr>album := v\<rparr>
          | Genre \<Rightarrow> (formData s)\<lparr>genre := v\<rparr>)\<rparr>"

section \<open>JSON values\<close>

text \<open>
  What \<^verbatim>\<open>JSON.parse\<close> gives and \<^verbatim>\<open>JSON.stringify\<close> takes. An object keeps its
  members in the order of the text; of two members with one name the later counts.
\<close>

datatype json_value =
  JNull
| JBool bool
| JNumber number
| JString string
| JArray "json_value list"
| JObject "(string \<times> json_value) list"

text \<open>
  \<^verbatim>\<open>v.name\<close> for a value other than \<^verbatim>\<open>null\<close> and a name that is none of the built-in
  properties of strings and arrays: the member of an object, \<^verbatim>\<open>undefined\<close> (\<open>None\<close>)
  otherwise.
\<close>

fun property :: "json_value \<Rightarrow> string \<Rightarrow> json_value option" where
  "property (JObject members) name = map_of (rev members) name"
| "property v name = None"

fun truthy :: "json_value \<Rightarrow> bool" where
  "truthy JNull = False"
| "truthy (JBool b) = b"
| "truthy (JNumber a) = num_truthy a"
| "truthy (JString s) = (s \<noteq> '''')"
| "truthy (JArray vs) = True"
| "truthy (JObject members) = True"

fun join_comma :: "string list \<Rightarrow> string" where
  "join_comma [] = ''''"
| "join_comma [x] = x"
| "join_comma (x # y # ys) = x @ '','' @ join_comma (y # ys)"

text \<open>The conversion of a value to a string, as \<^verbatim>\<open>new Error(v)\<close> does for its message.\<close>

fun to_text :: "engine \<Rightarrow> json_value \<Rightarrow> string" where
  "to_text g JNull = ''null''"
| "to_text g (JBool b) = (if b then ''true'' else ''false'')"
| "to_text g (JNumber a) = toString g a"
| "to_text g (JString s) = s"
| "to_text g (JArray vs) = join_comma (map (\<lambda>v. if v = JNull then '''' else to_text g v) vs)"
| "to_text g (JObject members) = ''[object Object]''"

text \<open>\<^verbatim>\<open>JSON.stringify\<close> writes a number that is not finite as \<^verbatim>\<open>null\<close>.\<close>

fun stringify_number :: "number \<Rightarrow> json_value" where
  "stringify_number (Num x) = JNumber (Num x)"
| "stringify_number a = JNull"

section \<open>Requests and responses\<close>

text \<open>
  The \<^verbatim>\<open>||\<close> of the source on strings: the empty string, \<^verbatim>\<open>null\<close> and
  \<^verbatim>\<open>undefined\<close> are falsy. An absent value is \<open>None\<close>; \<^verbatim>\<open>JSON.stringify\<close> leaves a
  property whose value is \<^verbatim>\<open>undefined\<close> out.
\<close>

definition or_undefined :: "string \<Rightarrow> string option" where
  "or_undefined x = (if x = '''' then None else Some x)"

definition or_string :: "string \<Rightarrow> string \<Rightarrow> string" where
  "or_string x d = (if x = '''' then d else x)"

definition or_default :: "string option \<Rightarrow> string \<Rightarrow> string" where
  "or_default x d = (case x of None \<Rightarrow> d | Some v \<Rightarrow> or_string v d)"

definition num_or_undefined :: "number \<Rightarrow> number option" where
  "num_or_undefined a = (if num_truthy a then Some a else None)"

text \<open>The body of a request, as \<^verbatim>\<open>JSON.stringify\<close> writes it.\<close>

record body =
  b_url :: string
  b_title :: "string option"
  b_artist :: "string option"
  b_album :: "string option"
  b_genre :: "string option"
  b_start :: json_value
  b_end :: "json_value option"

record request =
  req_target :: string
  req_method :: string
  req_content_type :: string
  req_body :: body

text \<open>
  \<^verbatim>\<open>const API_BASE = import.meta.env.VITE_API_BASE_URL;\<close> and, in both handlers,
  \<^verbatim>\<open>fetch("${API_BASE}/api/convert", {method: "POST", ...})\<close>. The first argument
  is written between double quotes, so it is that text and not a template.
\<close>

definition fetch_target :: "string \<Rightarrow> string" where
  "fetch_target API_BASE = ''${API_BASE}/api/convert''"

definition convert_request :: "string \<Rightarrow> form_data \<Rightarrow> request" where
  "convert_request API_BASE fd =
     \<lparr>req_target = fetch_target API_BASE, req_method = ''POST'',
      req_content_type = ''application/json'',
      req_body = \<lparr>b_url = url fd,
                  b_title = or_undefined (title fd),
                  b_artist = or_undefined (artist fd),
                  b_album = or_undefined (album fd),
                  b_genre = or_undefined (genre fd),
                  b_start = stringify_number (num_or (start fd) (Num 0)),
                  b_end = map_option stringify_number (num_or_undefined (end' fd))\<rparr>\<rparr>"

definition download_request :: "string \<Rightarrow> form_data \<Rightarrow> number \<times> number \<Rightarrow> request" where
  "download_request API_BASE fd rangeValues' =
     \<lparr>req_target = fetch_target API_BASE, req_method = ''POST'',
      req_content_type = ''application/json'',
      req_body = \<lparr>b_url = url fd,
                  b_title = or_undefined (title fd),
                  b_artist = or_undefined (artist fd),
                  b_album = or_undefined (album fd),
                  b_genre = or_undefined (genre fd),
                  b_start = stringify_number (fst rangeValues'),
                  b_end = Some (stringify_number (snd rangeValues'))\<rparr>\<rparr>"

text \<open>
  What the handlers read of a response: the status, the \<^verbatim>\<open>X-Video-Title\<close> header
  (\<open>None\<close> when \<^verbatim>\<open>headers.get\<close> gives \<^verbatim>\<open>null\<close>), the outcome of
  \<^verbatim>\<open>response.json()\<close> (\<open>Inl\<close> the message of the exception when the body is not
  JSON, \<open>Inr\<close> the value parsed) and the outcome of \<^verbatim>\<open>response.blob()\<close> followed by
  \<^verbatim>\<open>URL.createObjectURL\<close> (\<open>Inl\<close> the message of the exception, \<open>Inr\<close> the
  object URL). \<^verbatim>\<open>fetch\<close> itself may reject.
\<close>

record response =
  status_code :: nat
  x_video_title :: "string option"
  json :: "string + json_value"
  blob :: "string + string"

datatype fetch_outcome = Rejected string | Resolved response

definition ok :: "response \<Rightarrow> bool" where
  "ok r = (200 \<le> status_code r \<and> status_code r \<le> 299)"

text \<open>
  The message of the exception that reaches the \<^verbatim>\<open>catch\<close> block for a response that
  is not ok:
  \<^verbatim>\<open>
  const errorData = await response.json();
  throw new Error(errorData.error || fallback);
  \<close>
  \<^verbatim>\<open>response.json()\<close> may reject, and reading \<^verbatim>\<open>errorData.error\<close> throws when
  \<^verbatim>\<open>errorData\<close> is \<^verbatim>\<open>null\<close>.
\<close>

definition failure_message :: "engine \<Rightarrow> string + json_value \<Rightarrow> string \<Rightarrow> string" where
  "failure_message g parsed fallback =
     (case parsed of
        Inl message \<Rightarrow> message
      | Inr errorData \<Rightarrow>
          if errorData = JNull then null_read_message g
          else (case property errorData ''error'' of
                  None \<Rightarrow> fallback
                | Some e \<Rightarrow> if truthy e then to_text g e else fallback))"

section \<open>The URL check of handleConvert\<close>

text \<open>
  \<^verbatim>\<open>formData.url.match(/youtube\.com|youtu\.be/)\<close>: the pattern is not anchored, so it
  matches when one of the two texts occurs anywhere in the string.
\<close>

fun contains :: "string \<Rightarrow> string \<Rightarrow> bool" where
  "contains pat [] = (pat = [])"
| "contains pat (c # cs) = (prefix pat (c # cs) \<or> contains pat cs)"

definition matches_youtube :: "string \<Rightarrow> bool" where
  "matches_youtube u = (contains ''youtube.com'' u \<or> contains ''youtu.be'' u)"

text \<open>
  The specification's words for the inputs that may reach the network are "a recognized
  video-hosting URL shape"; its example of such a URL is
  \<^verbatim>\<open>https://youtube.com/watch?v=abc\<close> and its example of another input is
  \<^verbatim>\<open>not-a-url\<close>. \<open>spec_video_hosting_url\<close> follows these words, for comparison with
  the check of the source: an http or https URL whose host is one of the hosts of the
  video site.
\<close>

definition video_hosts :: "string list" where
  "video_hosts = [''youtube.com'', ''www.youtube.com'', ''m.youtube.com'',
                  ''music.youtube.com'', ''youtu.be'', ''www.youtu.be'']"

definition spec_video_hosting_url :: "string \<Rightarrow> bool" where
  "spec_video_hosting_url u =
     list_ex (\<lambda>scheme. list_ex (\<lambda>host.
        u = scheme @ host \<or> prefix (scheme @ host @ ''/'') u \<or> prefix (scheme @ host @ ''?'') u)
        video_hosts) [''http://'', ''https://'']"

section \<open>The handlers of the App component\<close>

text \<open>
  A handler is a function from the state before to the state after. The two handlers
  that call \<^verbatim>\<open>fetch\<close> take the network as a function from the request to what the
  call settles with, and return with the state the requests they issued;
  \<^verbatim>\<open>handleDownload\<close> returns the downloads it started as well. Every
  \<^verbatim>\<open>await\<close> that may throw ends in the \<^verbatim>\<open>catch\<close> block of its handler.
\<close>

definition convert_failed :: "app_state \<Rightarrow> string \<Rightarrow> app_state" where
  "convert_failed s message = s\<lparr>error := Some message, status := ''Failed to convert''\<rparr>"

definition handleConvert ::
  "engine \<Rightarrow> string \<Rightarrow> (request \<Rightarrow> fetch_outcome) \<Rightarrow> app_state
     \<Rightarrow> app_state \<times> request list" where
  "handleConvert g API_BASE fetch s =
     (let s1 = s\<lparr>status := ''Converting...'', error := None, isConverted := False,
                 audioUrl := '''', currentTime := 0, rangeValues := (Num 0, Num 1000),
                 audioDuration := Num 1000, videoTitle := '''',
                 audioRef := map_option (\<lambda>a. a\<lparr>paused := True, position := 0, src := ''''\<rparr>)
                                        (audioRef s),
                 isPlaying := False\<rparr>
      in if url (formData s) = '''' \<or> \<not> matches_youtube (url (formData s))
         then (s1\<lparr>error := Some ''Please enter a valid YouTube URL'', status := ''''\<rparr>, [])
         else (let req = convert_request API_BASE (formData s)
               in (case fetch req of
                     Rejected message \<Rightarrow> (convert_failed s1 message, [req])
                   | Resolved r \<Rightarrow>
                       if \<not> ok r
                       then (convert_failed s1 (failure_message g (json r) ''Conversion failed''),
                             [req])
                       else (let s2 = s1\<lparr>videoTitle := or_default (x_video_title r) '' ''\<rparr>
                             in (case blob r of
                                   Inl message \<Rightarrow> (convert_failed s2 message, [req])
                                 | Inr u \<Rightarrow>
                                     (s2\<lparr>audioUrl := u, isConverted := True,
                                         status := ''Conversion complete!''\<rparr>, [req]))))))"

record download =
  href :: string
  filename :: string

definition download_failed :: "app_state \<Rightarrow> string \<Rightarrow> app_state" where
  "download_failed s message = s\<lparr>error := Some message, status := ''Failed to download''\<rparr>"

definition handleDownload ::
  "engine \<Rightarrow> string \<Rightarrow> (request \<Rightarrow> fetch_outcome) \<Rightarrow> app_state
     \<Rightarrow> app_state \<times> request list \<times> download list" where
  "handleDownload g API_BASE fetch s =
     (if audioUrl s = '''' then (s, [], [])
      else (let s1 = s\<lparr>status := ''Preparing download...''\<rparr>;
                req = download_request API_BASE (formData s) (rangeValues s)
            in (case fetch req of
                  Rejected message \<Rightarrow> (download_failed s1 message, [req], [])
                | Resolved r \<Rightarrow>
                    if \<not> ok r
                    then (download_failed s1
                            (failure_message g (json r) ''Download preparation failed''),
                          [req], [])
                    else (case blob r of
                            Inl message \<Rightarrow> (download_failed s1 message, [req], [])
                          | Inr downloadUrl \<Rightarrow>
                              (s1\<lparr>status := ''Download complete!''\<rparr>, [req],
                               [\<lparr>href = downloadUrl,
                                 filename = or_string (title (formData s)) ''download''
                                            @ ''.mp3''\<rparr>])))))"











text \<open>What the component shows as the title of the video (line 386 of the source).\<close>

definition displayedTitle :: "app_state \<Rightarrow> string option" where
  "displayedTitle s = (if isConverted s \<and> videoTitle s \<noteq> '''' then Some (videoTitle s) else None)"

section \<open>The states of a session\<close>


section \<open>Example inputs\<close>

text \<open>
  An engine; the backend that \<^verbatim>\<open>vite.config.js\<close> proxies to, as a value of
  \<^verbatim>\<open>API_BASE\<close>; the form after a URL has been typed; a network that answers every
  request with the same response; a response with an MP3 body and a response with an
  error body.
\<close>

definition example_number_text :: "real \<Rightarrow> string" where
  "example_number_text x = ''1e+21''"

definition example_engine :: engine where
  "example_engine =
     \<lparr>number_text = example_number_text,
      null_read_message = ''Cannot read properties of null''\<rparr>"

definition example_api_base :: string where
  "example_api_base = ''https://mp3converter-tiago-api.onrender.com''"

definition with_url :: "string \<Rightarrow> app_state" where
  "with_url u = handleChange Url u initial"

definition always :: "response \<Rightarrow> request \<Rightarrow> fetch_outcome" where
  "always r req = Resolved r"

definition mp3_response :: "string option \<Rightarrow> response" where
  "mp3_response header =
     \<lparr>status_code = 200, x_video_title = header, json = Inl ''Unexpected token'',
      blob = Inr ''blob:mp3''\<rparr>"


text \<open>A session in which the preview of a video has been converted.\<close>

definition converted :: "string option \<Rightarrow> app_state" where
  "converted header =
     fst (handleConvert example_engine example_api_base (always (mp3_response header))
            (with_url ''https://youtube.com/watch?v=abc''))"









section \<open>Rounding to binary64\<close>

lemma rhe_int [simp]: "round_half_even (of_int i) = i"
  by (simp add: round_half_even_def)

lemma rhe_ge: "of_int i \<le> y \<Longrightarrow> i \<le> round_half_even y"
proof -
  assume "of_int i \<le> y"
  then have "i \<le> \<lfloor>y\<rfloor>" by (simp add: le_floor_iff)
  then show ?thesis by (auto simp: round_half_even_def Let_def)
qed

lemma rhe_le_half: "of_int (round_half_even y) \<le> y + 1 / 2"
proof (cases "y - of_int \<lfloor>y\<rfloor> < 1 / 2")
  case True
  have "of_int \<lfloor>y\<rfloor> \<le> y" by simp
  then have "of_int \<lfloor>y\<rfloor> \<le> y + 1 / 2" by linarith
  with True show ?thesis by (simp add: round_half_even_def)
next
  case False
  then have "of_int (\<lfloor>y\<rfloor> + 1) \<le> y + 1 / 2" by simp
  moreover have "round_half_even y \<le> \<lfloor>y\<rfloor> + 1"
    by (simp add: round_half_even_def Let_def)
  ultimately show ?thesis by (smt (verit) of_int_le_iff)
qed



lemma log2_bounds:
  assumes "0 < x"
  shows "2 powi \<lfloor>log 2 x\<rfloor> \<le> x" and "x < 2 powi (\<lfloor>log 2 x\<rfloor> + 1)"
proof -
  have p: "(2::real) powr (of_int k) = 2 powi k" for k
    by (simp add: powr_real_of_int')
  have "2 powr (of_int \<lfloor>log 2 x\<rfloor>) \<le> x \<and> x < 2 powr (of_int (\<lfloor>log 2 x\<rfloor> + 1))"
    using floor_log_eq_powr_iff [of x 2 "\<lfloor>log 2 x\<rfloor>"] assms by simp
  then show "2 powi \<lfloor>log 2 x\<rfloor> \<le> x" and "x < 2 powi (\<lfloor>log 2 x\<rfloor> + 1)"
    unfolding p by simp_all
qed

lemma floor_log2_eq:
  assumes "2 powi k \<le> x" and "x < 2 powi (k + 1)"
  shows "\<lfloor>log 2 x\<rfloor> = k"
proof -
  have pos: "0 < x" using assms(1) zero_less_power_int [of "2::real" k] by linarith
  have p: "(2::real) powr (of_int j) = 2 powi j" for j
    by (simp add: powr_real_of_int')
  have "2 powr (of_int k) \<le> x \<and> x < 2 powr (of_int (k + 1))"
    unfolding p using assms by simp
  then show ?thesis using floor_log_eq_powr_iff [of x 2 k] pos by simp
qed

lemma powi_less_imp_less: "(2::real) powi m < 2 powi n \<Longrightarrow> m < n"
  by (metis linorder_not_less one_less_numeral_iff power_int_increasing semiring_norm(76)
      order_less_imp_le)

lemma powi_le_imp_le: "(2::real) powi m \<le> 2 powi n \<Longrightarrow> m \<le> n"
  by (metis linorder_not_less one_less_numeral_iff power_int_strict_increasing semiring_norm(76))

lemma powi_neg_inverse: "j \<le> 0 \<Longrightarrow> (2::real) powi j = 1 / 2 ^ nat (- j)"
  by (simp add: power_int_def field_simps)


lemma pow_is_powi: "(2::real) ^ n = 2 powi int n"
  by (simp add: power_int_def)

lemma quantum_pos: "0 < quantum x"
  by (simp add: quantum_def zero_less_power_int)

lemma quantum_eq:
  assumes "2 powi k \<le> \<bar>x\<bar>" and "\<bar>x\<bar> < 2 powi (k + 1)" and "- 1022 \<le> k"
  shows "quantum x = 2 powi (k - 52)"
  using floor_log2_eq [OF assms(1) assms(2)] assms(3) by (simp add: quantum_def)

lemma quantum_le:
  assumes "x \<noteq> 0" and "\<bar>x\<bar> < 2 powi (k + 1)" and "- 1022 \<le> k"
  shows "\<exists>j. quantum x = 2 powi j \<and> j \<le> k - 52"
proof -
  have "0 < \<bar>x\<bar>" using assms(1) by simp
  from log2_bounds(1) [OF this] assms(2) have "2 powi \<lfloor>log 2 \<bar>x\<bar>\<rfloor> < (2::real) powi (k + 1)"
    by linarith
  then have "\<lfloor>log 2 \<bar>x\<bar>\<rfloor> < k + 1" by (rule powi_less_imp_less)
  then have "max \<lfloor>log 2 \<bar>x\<bar>\<rfloor> (- 1022) - 52 \<le> k - 52" using assms(3) by simp
  then show ?thesis unfolding quantum_def by blast
qed

text \<open>The rounding of a number whose leading bit is known.\<close>

lemma round64_eval:
  assumes "2 powi k \<le> \<bar>x\<bar>" and "\<bar>x\<bar> < 2 powi (k + 1)" and "- 1022 \<le> k"
  shows "round64 x =
     (let y = of_int (round_half_even (x / 2 powi (k - 52))) * 2 powi (k - 52)
      in if 2 ^ 1024 \<le> \<bar>y\<bar> then (if 0 < x then Infinity else NegInfinity) else Num y)"
proof -
  have "0 < \<bar>x\<bar>" using assms(1) zero_less_power_int [of "2::real" k] by linarith
  then have "x \<noteq> 0" by simp
  then show ?thesis by (simp add: round64_def quantum_eq [OF assms])
qed

text \<open>A whole number up to \<open>2 ^ 53\<close> is a binary64 value.\<close>

lemma round64_whole:
  assumes "x \<in> \<int>" and "\<bar>x\<bar> \<le> 2 ^ 53"
  shows "round64 x = Num x"
proof (cases "x = 0")
  case True
  then show ?thesis by (simp add: round64_def)
next
  case False
  from assms(1) obtain i where i: "x = of_int i" by (auto elim: Ints_cases)
  with False have "1 \<le> \<bar>i\<bar>" by simp
  then have one: "1 \<le> \<bar>x\<bar>" unfolding i by (metis of_int_1_le_iff of_int_abs)
  define e where "e = \<lfloor>log 2 \<bar>x\<bar>\<rfloor>"
  have lo: "2 powi e \<le> \<bar>x\<bar>" and hi: "\<bar>x\<bar> < 2 powi (e + 1)"
    unfolding e_def using log2_bounds [of "\<bar>x\<bar>"] one by simp_all
  have e0: "0 \<le> e" unfolding e_def using one by simp
  have "2 powi e \<le> (2::real) powi 53" using lo assms(2) by simp
  then have e53: "e \<le> 53" by (rule powi_le_imp_le)
  have q: "quantum x = 2 powi (e - 52)"
    using quantum_eq [OF lo hi] e0 by simp
  have "\<exists>j. x / quantum x = of_int j"
  proof (cases "e \<le> 52")
    case True
    then have "(2::real) powi (e - 52) = 1 / 2 ^ nat (52 - e)"
      using powi_neg_inverse [of "e - 52"] by simp
    then have "x / quantum x = x * 2 ^ nat (52 - e)" unfolding q by simp
    then have "x / quantum x = of_int (i * 2 ^ nat (52 - e))" by (simp add: i)
    then show ?thesis by blast
  next
    case False
    with e53 have e: "e = 53" by simp
    with lo assms(2) have "\<bar>x\<bar> = 2 ^ 53" by simp
    then have "x = 2 ^ 53 \<or> x = - (2 ^ 53)" by linarith
    then have "x / quantum x = of_int (2 ^ 52) \<or> x / quantum x = of_int (- (2 ^ 52))"
      by (auto simp: q e)
    then show ?thesis by blast
  qed
  then obtain j where j: "x / quantum x = of_int j" by blast
  have r: "round_half_even (x / quantum x) = j" by (simp add: j)
  have "of_int j * quantum x = x"
    using j quantum_pos [of x] by (metis less_irrefl nonzero_divide_eq_eq)
  then have "of_int (round_half_even (x / quantum x)) * quantum x = x" by (simp add: r)
  moreover have "(2::real) ^ 53 < 2 ^ 1024" by (rule power_strict_increasing) simp_all
  then have "\<bar>x\<bar> < 2 ^ 1024" using assms(2) by linarith
  ultimately show ?thesis using False by (simp add: round64_def)
qed




text \<open>The sixtieth of a whole number below \<open>2 ^ 53\<close> rounds inside the same minute.\<close>

lemma div60_floor:
  assumes "n < 2 ^ 53"
  shows "\<exists>r. round64 (real n / 60) = Num r \<and> \<lfloor>r\<rfloor> = int (n div 60)"
proof (cases "n = 0")
  case True
  then show ?thesis by (simp add: round64_def)
next
  case False
  define x where "x = real n / 60"
  define k where "k = n div 60"
  define y where "y = of_int (round_half_even (x / quantum x)) * quantum x"
  have pos: "0 < x" unfolding x_def using False by simp
  define i where "i = n mod 60"
  have "n = 60 * k + i" unfolding k_def i_def by simp
  then have n: "real n = 60 * real k + real i" by (metis of_nat_add of_nat_mult of_nat_numeral)
  have "i \<le> 59" unfolding i_def by simp
  then have m59: "real i \<le> 59" by (metis of_nat_le_iff of_nat_numeral)
  have xk: "x = real k + real i / 60" unfolding x_def n by simp
  have xlo: "real k \<le> x" unfolding xk by simp
  have xhi: "x + 1 / 60 \<le> real k + 1" unfolding xk using m59 by linarith
  have "real n < 2 ^ 53" using assms by (metis of_nat_less_iff of_nat_numeral of_nat_power)
  then have x53: "x < 2 ^ 53 / 60" unfolding x_def by simp
  have x48: "(2::real) ^ 53 / 60 < 2 ^ 48" by simp
  from x53 x48 have "\<bar>x\<bar> < 2 powi (47 + 1)" using pos by simp
  from quantum_le [OF _ this] pos obtain j where j: "quantum x = 2 powi j" "j \<le> - 5"
    by auto
  define N where "N = (2::nat) ^ nat (- j)"
  have q: "quantum x = 1 / real N"
    unfolding N_def j(1) using powi_neg_inverse [of j] j(2) by simp
  have "(2::nat) ^ 5 \<le> 2 ^ nat (- j)" using j(2) by (intro power_increasing) simp_all
  then have N32: "32 \<le> N" unfolding N_def by simp
  then have N32r: "32 \<le> real N" by (metis of_nat_le_iff of_nat_numeral)
  have xq: "x / quantum x = x * real N" unfolding q by simp
  have "of_int (int (k * N)) \<le> x * real N" using xlo by (simp add: mult_right_mono)
  then have "int (k * N) \<le> round_half_even (x / quantum x)" unfolding xq by (rule rhe_ge)
  then have "real (k * N) \<le> of_int (round_half_even (x / quantum x))"
    by (metis of_int_le_iff of_int_of_nat_eq)
  then have ylo: "real k \<le> y" unfolding y_def q using N32r by (simp add: pos_le_divide_eq)
  have "of_int (round_half_even (x / quantum x)) \<le> x * real N + 1 / 2"
    unfolding xq [symmetric] by (rule rhe_le_half)
  also have "x * real N \<le> (real k + 1 - 1 / 60) * real N"
    using xhi by (intro mult_right_mono) simp_all
  also have "(real k + 1 - 1 / 60) * real N + 1 / 2 < (real k + 1) * real N"
    using N32r by (simp add: algebra_simps)
  finally have "of_int (round_half_even (x / quantum x)) < (real k + 1) * real N" by simp
  then have yhi: "y < real k + 1" unfolding y_def q using N32r by (simp add: pos_divide_less_eq)
  have "real k + 1 \<le> 2 ^ 1024"
  proof -
    have "real k \<le> x" by (rule xlo)
    also have "x < 2 ^ 48" using x53 x48 by linarith
    finally have "real k + 1 < 2 ^ 48 + 1" by simp
    also have "(2::real) ^ 48 + 1 \<le> 2 ^ 49" by simp
    also have "(2::real) ^ 49 \<le> 2 ^ 1024" by (rule power_increasing) simp_all
    finally show ?thesis by simp
  qed
  with ylo yhi have "\<bar>y\<bar> < 2 ^ 1024" by simp
  then have "round64 x = Num y"
    using pos unfolding round64_def Let_def y_def by simp
  moreover have "\<lfloor>y\<rfloor> = int k" using ylo yhi by (simp add: floor_eq_iff)
  ultimately show ?thesis unfolding x_def k_def by blast
qed

text \<open>Rounding at given numbers: to the nearest, and to the even neighbour at a tie.\<close>

lemma rhe_near:
  assumes "of_int m - 1 / 2 < y" and "y < of_int m + 1 / 2"
  shows "round_half_even y = m"
proof (cases "of_int m \<le> y")
  case True
  with assms(2) have "\<lfloor>y\<rfloor> = m" by (simp add: floor_eq_iff)
  with assms(2) show ?thesis by (simp add: round_half_even_def Let_def)
next
  case False
  with assms(1) have f: "\<lfloor>y\<rfloor> = m - 1" by (simp add: floor_eq_iff)
  have "1 / 2 < y - of_int (m - 1)" using assms(1) by simp
  then show ?thesis unfolding round_half_even_def Let_def f by simp
qed

lemma rhe_tie:
  assumes "y = of_int m + 1 / 2" and "even m"
  shows "round_half_even y = m"
proof -
  have f: "\<lfloor>y\<rfloor> = m" unfolding assms(1) by (simp add: floor_eq_iff)
  show ?thesis unfolding round_half_even_def Let_def f using assms by simp
qed

lemma round64_above:
  fixes j :: nat
  assumes "2 ^ (52 + j) \<le> \<bar>x\<bar>" and "\<bar>x\<bar> < 2 ^ (53 + j)"
    and "round_half_even (x / 2 ^ j) = m" and "\<bar>of_int m * 2 ^ j\<bar> < (2::real) ^ 1024"
  shows "round64 x = Num (of_int m * 2 ^ j)"
proof -
  have "(2::real) powi (52 + int j) = 2 ^ (52 + j)"
    by (metis pow_is_powi of_nat_add of_nat_numeral)
  moreover have "52 + int j + 1 = 53 + int j" by simp
  then have "(2::real) powi (52 + int j + 1) = 2 ^ (53 + j)"
    by (metis pow_is_powi of_nat_add of_nat_numeral)
  ultimately have a: "2 powi (52 + int j) \<le> \<bar>x\<bar>" "\<bar>x\<bar> < 2 powi (52 + int j + 1)"
    using assms(1,2) by simp_all
  have "52 + int j - 52 = int j" by simp
  then have q: "(2::real) powi (52 + int j - 52) = 2 ^ j"
    by (metis pow_is_powi)
  have "round64 x =
     (let y = of_int (round_half_even (x / 2 powi (52 + int j - 52))) * 2 powi (52 + int j - 52)
      in if 2 ^ 1024 \<le> \<bar>y\<bar> then (if 0 < x then Infinity else NegInfinity) else Num y)"
    by (rule round64_eval [OF a]) simp
  then show ?thesis unfolding q Let_def assms(3) using assms(4) by simp
qed

lemma round64_below:
  fixes j k :: nat
  assumes "2 ^ k \<le> \<bar>x\<bar>" and "\<bar>x\<bar> < 2 ^ (k + 1)" and "k + j = 52"
    and "round_half_even (x * 2 ^ j) = m" and "\<bar>of_int m / 2 ^ j\<bar> < (2::real) ^ 1024"
  shows "round64 x = Num (of_int m / 2 ^ j)"
proof -
  have "(2::real) powi int k = 2 ^ k" by (metis pow_is_powi)
  moreover have "(2::real) powi (int k + 1) = 2 ^ (k + 1)"
    by (metis pow_is_powi of_nat_add of_nat_1)
  ultimately have a: "2 powi int k \<le> \<bar>x\<bar>" "\<bar>x\<bar> < 2 powi (int k + 1)"
    using assms(1,2) by simp_all
  have "int k - 52 = - int j" using assms(3) by simp
  then have q: "(2::real) powi (int k - 52) = 1 / 2 ^ j"
    using powi_neg_inverse [of "- int j"] by simp
  have "round64 x =
     (let y = of_int (round_half_even (x / 2 powi (int k - 52))) * 2 powi (int k - 52)
      in if 2 ^ 1024 \<le> \<bar>y\<bar> then (if 0 < x then Infinity else NegInfinity) else Num y)"
    by (rule round64_eval [OF a]) simp
  then show ?thesis unfolding q Let_def using assms(4,5) by simp
qed

section \<open>Digits, parseInt and split\<close>

lemma digit_cases: "d < 10 \<Longrightarrow> d \<in> {0, 1, 2, 3, 4, 5, 6, 7, 8, 9 :: nat}"
  by auto

lemma digit_char_props:
  assumes "d < 10"
  shows "isDigit (digit_char d)" and "digit_val (digit_char d) = d"
  using digit_cases [OF assms]
  by (auto simp: digit_char_def isDigit_def digit_val_def)

lemma isDigit_props:
  assumes "isDigit c"
  shows "c \<noteq> CHR '':''" and "\<not> isWhiteSpace c" and "c \<noteq> CHR ''-''" and "c \<noteq> CHR ''+''"
  using assms by (auto simp: isDigit_def isWhiteSpace_def)

lemma decimal_digits: "\<forall>c \<in> set (decimal n). isDigit c"
proof (induction n rule: decimal.induct)
  case (1 n)
  show ?case
  proof (cases "n < 10")
    case True
    then show ?thesis by (simp add: decimal.simps [of n] digit_char_props(1))
  next
    case False
    then show ?thesis using 1 by (simp add: decimal.simps [of n] digit_char_props(1))
  qed
qed

lemma decimal_nonempty: "decimal n \<noteq> []"
  by (simp add: decimal.simps [of n])

lemma digits_val_snoc: "digits_val (ds @ [c]) = 10 * digits_val ds + digit_val c"
  by (simp add: digits_val_def)

lemma digits_val_decimal: "digits_val (decimal n) = n"
proof (induction n rule: decimal.induct)
  case (1 n)
  show ?case
  proof (cases "n < 10")
    case True
    then show ?thesis by (simp add: decimal.simps [of n] digits_val_def digit_char_props(2))
  next
    case False
    then have "digits_val (decimal n) = 10 * (n div 10) + n mod 10"
      using 1 by (simp add: decimal.simps [of n] digits_val_snoc digit_char_props(2))
    then show ?thesis by simp
  qed
qed

lemma digits_val_zeros: "digits_val (replicate k (CHR ''0'') @ ds) = digits_val ds"
proof -
  have "foldl (\<lambda>acc c. 10 * acc + digit_val c) 0 (replicate k (CHR ''0'')) = 0"
    by (induction k) (simp_all add: digit_val_def)
  then show ?thesis by (simp add: digits_val_def)
qed

lemma parseInt_digits:
  assumes "ds \<noteq> []" and "\<forall>c \<in> set ds. isDigit c"
  shows "parseInt ds = round64 (real (digits_val ds))"
proof -
  from assms obtain c r where ds: "ds = c # r" by (cases ds) auto
  with assms have c: "isDigit c" by simp
  have tw: "takeWhile isDigit ds = ds" using assms(2) by simp
  show ?thesis
    using isDigit_props [OF c] tw assms(1) by (simp add: parseInt_def ds)
qed


lemma split_no_sep: "sep \<notin> set b \<Longrightarrow> split sep b = [b]"
  by (induction b) auto

lemma split_one_sep: "sep \<notin> set a \<Longrightarrow> sep \<notin> set b \<Longrightarrow> split sep (a @ sep # b) = [a, b]"
  by (induction a) (auto simp: split_no_sep)

lemma padStart2_digits:
  assumes "ds \<noteq> []" and "\<forall>c \<in> set ds. isDigit c"
  shows "parseInt (padStart2 ds) = round64 (real (digits_val ds))"
    and "CHR '':'' \<notin> set (padStart2 ds)"
proof -
  have z: "isDigit (CHR ''0'')" by (simp add: isDigit_def)
  have all: "\<forall>c \<in> set (padStart2 ds). isDigit c" using assms(2) z by (auto simp: padStart2_def)
  have ne: "padStart2 ds \<noteq> []" using assms(1) by (simp add: padStart2_def)
  show "parseInt (padStart2 ds) = round64 (real (digits_val ds))"
    using parseInt_digits [OF ne all] by (simp add: padStart2_def digits_val_zeros)
  show "CHR '':'' \<notin> set (padStart2 ds)" using all isDigit_props(1) by blast
qed

lemma parseTimeInput_two_parts:
  assumes "CHR '':'' \<notin> set a" and "CHR '':'' \<notin> set b"
  shows "parseTimeInput (a @ '':'' @ b) =
     (if isNaN (parseInt a) \<or> isNaN (parseInt b) then Num 0
      else num_add (num_mul (parseInt a) (Num 60)) (parseInt b))"
proof -
  have "split (CHR '':'') (a @ CHR '':'' # b) = [a, b]"
    using split_one_sep [OF assms] .
  then show ?thesis by (simp add: parseTimeInput_def Let_def)
qed

section \<open>formatTime on whole seconds\<close>

lemma real_whole: "real k < 2 ^ 53 \<longleftrightarrow> k < 2 ^ 53"
  by (metis of_nat_less_iff of_nat_numeral of_nat_power)

lemma round64_nat: "k \<le> 2 ^ 53 \<Longrightarrow> round64 (real k) = Num (real k)"
proof -
  assume "k \<le> 2 ^ 53"
  then have "real k \<le> 2 ^ 53" by (metis of_nat_le_iff of_nat_numeral of_nat_power)
  then show ?thesis by (intro round64_whole) simp_all
qed

lemma toString_nat: "k < 2 ^ 53 \<Longrightarrow> toString g (Num (real k)) = decimal k"
  by (simp add: toString_def real_whole)

lemma rem_whole: "num_rem (Num (real n)) (Num 60) = Num (real (n mod 60))"
proof -
  have "\<lfloor>real n / 60\<rfloor> = int (n div 60)"
    using floor_divide_of_nat_eq [of n 60, where ?'a = real] by simp
  then have t: "js_trunc (real n / 60) = int (n div 60)" by (simp add: js_trunc_def)
  have "n = 60 * (n div 60) + n mod 60" by simp
  then have "real n = 60 * real (n div 60) + real (n mod 60)"
    by (metis of_nat_add of_nat_mult of_nat_numeral)
  then have e: "real n - 60 * of_int (js_trunc (real n / 60)) = real (n mod 60)"
    unfolding t by simp
  have "num_rem (Num (real n)) (Num 60) = Num (real n - 60 * of_int (js_trunc (real n / 60)))"
    by simp
  then show ?thesis unfolding e .
qed

lemma formatTime_whole:
  assumes "n < 2 ^ 53"
  shows "formatTime g (Num (real n)) =
     padStart2 (decimal (n div 60)) @ '':'' @ padStart2 (decimal (n mod 60))"
proof -
  from div60_floor [OF assms] obtain r
    where r: "round64 (real n / 60) = Num r" "\<lfloor>r\<rfloor> = int (n div 60)" by blast
  have mins: "math_floor (num_div (Num (real n)) (Num 60)) = Num (real (n div 60))"
    by (simp add: r)
  have secs: "math_floor (num_rem (Num (real n)) (Num 60)) = Num (real (n mod 60))"
    unfolding rem_whole by simp
  have d: "n div 60 < 2 ^ 53" using assms by (meson div_le_dividend le_less_trans)
  have m: "n mod 60 < 2 ^ 53" using assms by (meson le_less_trans mod_less_eq_dividend)
  show ?thesis
    unfolding formatTime_def Let_def mins secs
    by (simp add: isNaN_def toString_nat [OF d] toString_nat [OF m])
qed

lemma parseTimeInput_formatTime:
  assumes "n < 2 ^ 53"
  shows "parseTimeInput (formatTime g (Num (real n))) = Num (real n)"
proof -
  let ?m = "padStart2 (decimal (n div 60))" and ?s = "padStart2 (decimal (n mod 60))"
  have d: "n div 60 \<le> 2 ^ 53" using assms by (meson div_le_dividend le_less_trans less_imp_le)
  have k: "n mod 60 \<le> 2 ^ 53" using assms by (meson le_less_trans mod_less_eq_dividend less_imp_le)
  have m: "parseInt ?m = Num (real (n div 60))" "CHR '':'' \<notin> set ?m"
    using padStart2_digits [OF decimal_nonempty decimal_digits, of "n div 60"]
    by (simp_all add: digits_val_decimal round64_nat [OF d])
  have s: "parseInt ?s = Num (real (n mod 60))" "CHR '':'' \<notin> set ?s"
    using padStart2_digits [OF decimal_nonempty decimal_digits, of "n mod 60"]
    by (simp_all add: digits_val_decimal round64_nat [OF k])
  have "n div 60 * 60 \<le> n" by simp
  with assms have p: "n div 60 * 60 \<le> 2 ^ 53" by linarith
  have "num_mul (Num (real (n div 60))) (Num 60) = Num (real (n div 60 * 60))"
    using round64_nat [OF p] by simp
  moreover have "num_add (Num (real (n div 60 * 60))) (Num (real (n mod 60))) = Num (real n)"
  proof -
    have "n div 60 * 60 + n mod 60 = n" by simp
    then have "real (n div 60 * 60) + real (n mod 60) = real n"
      by (metis of_nat_add)
    moreover have "round64 (real n) = Num (real n)" using assms by (intro round64_nat) simp
    ultimately show ?thesis by simp
  qed
  ultimately show ?thesis
    using parseTimeInput_two_parts [OF m(2) s(2)]
    by (simp add: formatTime_whole [OF assms] m(1) s(1) isNaN_def)
qed

text \<open>
  C8, as the source has it. formatTime and parseTimeInput form a round trip on the whole
  seconds below \<open>2\<^sup>5\<^sup>3\<close>: for every such \<open>n \<ge> 0\<close>, parseTimeInput (formatTime n) = n;
  and formatTime gives "00:00" for NaN and for every negative input.
\<close>

theorem formatTime_parseTimeInput_roundtrip:
  "(n < 2 ^ 53 \<longrightarrow> parseTimeInput (formatTime g (Num (real n))) = Num (real n))
   \<and> formatTime g NaN = ''00:00''
   \<and> (num_lt a (Num 0) \<longrightarrow> formatTime g a = ''00:00'')"
  using parseTimeInput_formatTime [of n g] by (simp add: formatTime_def isNaN_def)

theorem formatTime_parseTimeInput_roundtrip_witness:
  "(3725 :: nat) < 2 ^ 53
   \<and> parseTimeInput (formatTime example_engine (Num (real 3725))) = Num (real 3725)
   \<and> formatTime example_engine (Num (real 3725)) = ''62:05''
   \<and> num_lt (Num (- 1)) (Num 0) \<and> formatTime example_engine (Num (- 1)) = ''00:00''
   \<and> num_lt NegInfinity (Num 0) \<and> formatTime example_engine NegInfinity = ''00:00''"
proof -
  have b: "(3725 :: nat) < 2 ^ 53" by simp
  have "formatTime example_engine (Num (real 3725)) = ''62:05''"
    using formatTime_whole [OF b, of example_engine]
    by (simp add: padStart2_def decimal.simps digit_char_def)
  then show ?thesis
    using b formatTime_parseTimeInput_roundtrip [of 3725 example_engine "Num (- 1)"]
      formatTime_parseTimeInput_roundtrip [of 3725 example_engine NegInfinity]
    by simp
qed

lemma round64_sixtieth: "round64 (36028797018964024 / 60) = Num (4803839602528537 / 8)"
proof -
  have "round_half_even (36028797018964024 / 60 * 2 ^ 3) = 4803839602528537"
    by (rule rhe_near) simp_all
  from round64_below [of 49 "36028797018964024 / 60" 3, OF _ _ _ this]
  show ?thesis by simp
qed

lemma round64_product: "round64 36028797018964020 = Num 36028797018964016"
proof -
  have "round_half_even (36028797018964020 / 2 ^ 3) = 4503599627370502"
    by (rule rhe_tie) simp_all
  from round64_above [of 3 36028797018964020, OF _ _ this]
  show ?thesis by simp
qed

lemma formatTime_large:
  "formatTime g (Num 36028797018964024) = ''600479950316067:04''"
proof -
  have "num_div (Num a) (Num 60) = round64 (a / 60)" for a by simp
  then have d: "num_div (Num 36028797018964024) (Num 60) = Num (4803839602528537 / 8)"
    unfolding round64_sixtieth [symmetric] .
  have m: "math_floor (Num (4803839602528537 / 8)) = Num 600479950316067" by simp
  have r: "math_floor (num_rem (Num 36028797018964024) (Num 60)) = Num 4"
    by (simp add: js_trunc_def)
  have t: "toString g (Num 600479950316067) = ''600479950316067''"
    "toString g (Num 4) = ''4''"
    by (simp_all add: toString_def decimal.simps digit_char_def)
  show ?thesis
    unfolding formatTime_def Let_def d m r t by (simp add: isNaN_def padStart2_def)
qed

text \<open>
  C8, as the claim states it: the round trip holds for every non-negative integer. For
  n = 36028797018964024, a binary64 value, formatTime gives "600479950316067:04";
  parseTimeInput multiplies the minutes by 60 and adds 4, and both results round to
  36028797018964016.
\<close>

theorem roundtrip_counterexample:
  "parseTimeInput (formatTime example_engine (Num 36028797018964024)) = Num 36028797018964016
   \<and> Num 36028797018964016 \<noteq> Num 36028797018964024"
proof -
  have w: "round64 600479950316067 = Num 600479950316067" "round64 4 = Num 4"
    by (rule round64_whole; simp)+
  have "num_mul (Num 600479950316067) (Num 60) = Num 36028797018964016"
    by (simp add: round64_product)
  moreover have "num_add (Num 36028797018964016) (Num 4) = Num 36028797018964016"
    by (simp add: round64_product)
  ultimately show ?thesis
    by (simp add: formatTime_large parseTimeInput_def parseInt_def isWhiteSpace_def
        isDigit_def digits_val_def digit_val_def isNaN_def w del: num_mul.simps num_add.simps)
qed

section \<open>The requests of the two handlers\<close>

lemma handleConvert_requests:
  "snd (handleConvert g API_BASE fetch s) =
     (if matches_youtube (url (formData s)) then [convert_request API_BASE (formData s)] else [])"
proof (cases "url (formData s)")
  case Nil
  then show ?thesis by (simp add: handleConvert_def matches_youtube_def)
next
  case (Cons c cs)
  then show ?thesis
    by (simp add: handleConvert_def Let_def split: fetch_outcome.splits sum.splits)
qed

lemma handleDownload_requests:
  "fst (snd (handleDownload g API_BASE fetch s)) =
     (if audioUrl s = '''' then [] else [download_request API_BASE (formData s) (rangeValues s)])"
  by (simp add: handleDownload_def Let_def split: fetch_outcome.splits sum.splits)

lemma converted_state:
  "converted header =
     initial\<lparr>formData := (formData initial)\<lparr>url := ''https://youtube.com/watch?v=abc''\<rparr>,
             status := ''Conversion complete!'', isConverted := True,
             audioUrl := ''blob:mp3'', videoTitle := or_default header '' ''\<rparr>"
  by (simp add: converted_def with_url_def handleChange_def handleConvert_def always_def
      mp3_response_def ok_def matches_youtube_def initial_def Let_def)


text \<open>
  C1. Every conversion request the client issues (the preview request of handleConvert
  and the download request of handleDownload) is an HTTP POST to the /api/convert
  endpoint of the API base. Both requests are POSTs to one target, but the target is the
  text \<^verbatim>\<open>${API_BASE}/api/convert\<close> itself, whatever the API base is: with the API base
  \<^verbatim>\<open>https://mp3converter-tiago-api.onrender.com\<close> neither request goes to
  \<^verbatim>\<open>https://mp3converter-tiago-api.onrender.com/api/convert\<close>.
\<close>

theorem fetch_target_is_not_api_base:
  "map req_target (snd (handleConvert example_engine example_api_base
                          (always (mp3_response (Some ''Video'')))
                          (with_url ''https://youtube.com/watch?v=abc'')))
     = [''${API_BASE}/api/convert'']
   \<and> map req_target (fst (snd (handleDownload example_engine example_api_base
                                  (always (mp3_response (Some ''Video'')))
                                  (converted (Some ''Video'')))))
     = [''${API_BASE}/api/convert'']
   \<and> map req_method (snd (handleConvert example_engine example_api_base
                            (always (mp3_response (Some ''Video'')))
                            (with_url ''https://youtube.com/watch?v=abc'')))
     = [''POST'']
   \<and> ''${API_BASE}/api/convert'' \<noteq> example_api_base @ ''/api/convert''"
  by (simp add: handleConvert_requests handleDownload_requests converted_state with_url_def
      handleChange_def initial_def matches_youtube_def convert_request_def
      download_request_def fetch_target_def example_api_base_def)

section \<open>The URL check\<close>

lemma contains_iff: "contains pat u \<longleftrightarrow> (\<exists>a b. u = a @ pat @ b)"
proof (induction u)
  case Nil
  then show ?case by auto
next
  case (Cons c cs)
  have "(\<exists>a b. c # cs = a @ pat @ b) \<longleftrightarrow> prefix pat (c # cs) \<or> (\<exists>a b. cs = a @ pat @ b)"
  proof
    assume "\<exists>a b. c # cs = a @ pat @ b"
    then obtain a b where ab: "c # cs = a @ pat @ b" by blast
    show "prefix pat (c # cs) \<or> (\<exists>a b. cs = a @ pat @ b)"
    proof (cases a)
      case Nil
      with ab show ?thesis by (simp add: prefix_def)
    next
      case (Cons x a')
      with ab have "cs = a' @ pat @ b" by simp
      then show ?thesis by blast
    qed
  next
    assume "prefix pat (c # cs) \<or> (\<exists>a b. cs = a @ pat @ b)"
    then show "\<exists>a b. c # cs = a @ pat @ b"
    proof
      assume "prefix pat (c # cs)"
      then obtain b where "c # cs = pat @ b" by (auto simp: prefix_def)
      then have "c # cs = [] @ pat @ b" by simp
      then show ?thesis by blast
    next
      assume "\<exists>a b. cs = a @ pat @ b"
      then obtain a b where "cs = a @ pat @ b" by blast
      then have "c # cs = (c # a) @ pat @ b" by simp
      then show ?thesis by blast
    qed
  qed
  with Cons show ?case by simp
qed

text \<open>
  C2, as the source has it. A URL string in which neither \<^verbatim>\<open>youtube.com\<close> nor
  \<^verbatim>\<open>youtu.be\<close> occurs (the empty string among them) makes handleConvert report
  "Please enter a valid YouTube URL" and return without a request, and a request is
  issued only for a string in which one of the two occurs; where in the string it
  occurs does not matter.
\<close>

theorem handleConvert_url_check:
  "(\<not> matches_youtube (url (formData s)) \<longrightarrow>
      error (fst (handleConvert g API_BASE fetch s)) = Some ''Please enter a valid YouTube URL''
      \<and> status (fst (handleConvert g API_BASE fetch s)) = ''''
      \<and> snd (handleConvert g API_BASE fetch s) = [])
   \<and> (snd (handleConvert g API_BASE fetch s) \<noteq> [] \<longrightarrow> matches_youtube (url (formData s)))
   \<and> (matches_youtube u \<longleftrightarrow> (\<exists>a b. u = a @ ''youtube.com'' @ b \<or> u = a @ ''youtu.be'' @ b))"
proof -
  have "matches_youtube u \<longleftrightarrow> (\<exists>a b. u = a @ ''youtube.com'' @ b \<or> u = a @ ''youtu.be'' @ b)"
    unfolding matches_youtube_def contains_iff by blast
  moreover have "\<not> matches_youtube (url (formData s)) \<Longrightarrow>
      error (fst (handleConvert g API_BASE fetch s)) = Some ''Please enter a valid YouTube URL''
      \<and> status (fst (handleConvert g API_BASE fetch s)) = ''''"
    by (simp add: handleConvert_def)
  ultimately show ?thesis by (simp add: handleConvert_requests)
qed

theorem handleConvert_url_check_witness:
  "\<not> matches_youtube (url (formData (with_url ''not-a-url'')))
   \<and> error (fst (handleConvert example_engine example_api_base (always (mp3_response None))
                   (with_url ''not-a-url''))) = Some ''Please enter a valid YouTube URL''
   \<and> snd (handleConvert example_engine example_api_base (always (mp3_response None))
            (with_url ''not-a-url''))
       = []
   \<and> snd (handleConvert example_engine example_api_base (always (mp3_response None))
             (with_url ''https://youtube.com/watch?v=abc'')) \<noteq> []
   \<and> matches_youtube (url (formData (with_url ''https://youtube.com/watch?v=abc'')))"
proof -
  have no: "\<not> matches_youtube (url (formData (with_url ''not-a-url'')))"
    by (simp add: with_url_def handleChange_def matches_youtube_def)
  have yes: "snd (handleConvert example_engine example_api_base (always (mp3_response None))
                    (with_url ''https://youtube.com/watch?v=abc'')) \<noteq> []"
    by (simp add: handleConvert_requests with_url_def handleChange_def matches_youtube_def)
  show ?thesis
    using no yes
      handleConvert_url_check [of "with_url ''not-a-url''" example_engine example_api_base
        "always (mp3_response None)"]
      handleConvert_url_check [of "with_url ''https://youtube.com/watch?v=abc''"
        example_engine example_api_base "always (mp3_response None)"]
    by blast
qed

text \<open>
  C2, as the claim states it: only genuine video-hosting URLs reach the network. The
  string \<^verbatim>\<open>https://example.org/?ref=youtu.be\<close> is the URL of another site, and
  handleConvert issues a request for it.
\<close>

theorem url_check_counterexample:
  "snd (handleConvert example_engine example_api_base (always (mp3_response None))
          (with_url ''https://example.org/?ref=youtu.be'')) \<noteq> []
   \<and> \<not> spec_video_hosting_url ''https://example.org/?ref=youtu.be''"
  by (simp add: handleConvert_requests with_url_def handleChange_def matches_youtube_def
      spec_video_hosting_url_def video_hosts_def)

section \<open>The two calls of a session\<close>








section \<open>Metadata fields of the request body\<close>

text \<open>
  C5. In every request body the client builds, each of title, artist, album and genre
  is present exactly when the form holds a non-empty string for it, and then carries
  that string; an empty form field is left out, never sent as an empty string.
\<close>

theorem metadata_present_iff_nonempty:
  assumes "req \<in> set (snd (handleConvert g API_BASE fetch s))
                 \<union> set (fst (snd (handleDownload g API_BASE fetch' s)))"
  shows
    "b_title (req_body req)
       = (if title (formData s) = '''' then None else Some (title (formData s)))
     \<and> b_artist (req_body req)
       = (if artist (formData s) = '''' then None else Some (artist (formData s)))
     \<and> b_album (req_body req)
       = (if album (formData s) = '''' then None else Some (album (formData s)))
     \<and> b_genre (req_body req)
       = (if genre (formData s) = '''' then None else Some (genre (formData s)))
     \<and> Some '''' \<notin> {b_title (req_body req), b_artist (req_body req),
                       b_album (req_body req), b_genre (req_body req)}"
proof -
  from assms have "req = convert_request API_BASE (formData s)
                   \<or> req = download_request API_BASE (formData s) (rangeValues s)"
    by (auto simp: handleConvert_requests handleDownload_requests split: if_splits)
  then show ?thesis
    by (auto simp: convert_request_def download_request_def or_undefined_def)
qed

theorem metadata_present_iff_nonempty_witness:
  "convert_request example_api_base (formData (handleChange Title ''Song'' (converted None)))
     \<in> set (snd (handleConvert example_engine example_api_base (always (mp3_response None))
                   (handleChange Title ''Song'' (converted None))))
         \<union> set (fst (snd (handleDownload example_engine example_api_base
                             (always (mp3_response None))
                             (handleChange Title ''Song'' (converted None)))))
   \<and> b_title (req_body (convert_request example_api_base
                           (formData (handleChange Title ''Song'' (converted None)))))
       = Some ''Song''
   \<and> b_artist (req_body (convert_request example_api_base
                            (formData (handleChange Title ''Song'' (converted None)))))
       = None"
proof -
  have f: "title (formData (handleChange Title ''Song'' (converted None))) = ''Song''"
    "artist (formData (handleChange Title ''Song'' (converted None))) = ''''"
    "matches_youtube (url (formData (handleChange Title ''Song'' (converted None))))"
    by (simp_all add: handleChange_def converted_state initial_def matches_youtube_def)
  have m: "convert_request example_api_base (formData (handleChange Title ''Song'' (converted None)))
     \<in> set (snd (handleConvert example_engine example_api_base (always (mp3_response None))
                   (handleChange Title ''Song'' (converted None))))
         \<union> set (fst (snd (handleDownload example_engine example_api_base
                             (always (mp3_response None))
                             (handleChange Title ''Song'' (converted None)))))"
    using f(3) by (simp add: handleConvert_requests)
  show ?thesis
    using m f(1) f(2) metadata_present_iff_nonempty [OF m] by simp
qed

section \<open>The displayed title\<close>

lemma handleConvert_success:
  assumes "matches_youtube (url (formData s))"
    and "fetch (convert_request API_BASE (formData s)) = Resolved r"
    and "ok r" and "blob r = Inr u"
  shows "isConverted (fst (handleConvert g API_BASE fetch s))"
    and "videoTitle (fst (handleConvert g API_BASE fetch s)) = or_default (x_video_title r) '' ''"
    and "audioUrl (fst (handleConvert g API_BASE fetch s)) = u"
proof -
  from assms(1) have "url (formData s) \<noteq> ''''" by (auto simp: matches_youtube_def)
  with assms show "isConverted (fst (handleConvert g API_BASE fetch s))"
    and "videoTitle (fst (handleConvert g API_BASE fetch s)) = or_default (x_video_title r) '' ''"
    and "audioUrl (fst (handleConvert g API_BASE fetch s)) = u"
    by (simp_all add: handleConvert_def Let_def)
qed

lemma handleConvert_title_independent:
  "videoTitle (fst (handleConvert g API_BASE (always r) (handleChange Title t s)))
     = videoTitle (fst (handleConvert g API_BASE (always r) s))
   \<and> isConverted (fst (handleConvert g API_BASE (always r) (handleChange Title t s)))
     = isConverted (fst (handleConvert g API_BASE (always r) s))"
  by (simp add: handleConvert_def Let_def always_def convert_failed_def handleChange_def
      split: sum.splits)

lemma displayedTitle_handleDownload:
  "displayedTitle (fst (handleDownload g API_BASE fetch s)) = displayedTitle s"
  by (simp add: displayedTitle_def handleDownload_def download_failed_def Let_def
      split: fetch_outcome.splits sum.splits)

lemma handleDownload_filename:
  "map filename (snd (snd (handleDownload g API_BASE fetch s))) = []
   \<or> map filename (snd (snd (handleDownload g API_BASE fetch s)))
       = [(if title (formData s) = '''' then ''download'' else title (formData s)) @ ''.mp3'']"
  by (simp add: handleDownload_def Let_def or_string_def split: fetch_outcome.splits sum.splits)

text \<open>
  C6, as the source has it. After a successful conversion the displayed title is the
  value of the response's X-Video-Title header, or a single space when the header is
  absent or empty. It does not depend on the title field of the form: the same response
  gives the same displayed title whatever that field holds, editing the field and
  downloading leave the displayed title as it is, and the field goes into the request
  body and the name of the downloaded file.
\<close>

theorem displayed_title_from_header:
  "(matches_youtube (url (formData s))
      \<and> fetch (convert_request API_BASE (formData s)) = Resolved r \<and> ok r \<and> blob r = Inr u
    \<longrightarrow> isConverted (fst (handleConvert g API_BASE fetch s))
        \<and> displayedTitle (fst (handleConvert g API_BASE fetch s))
            = Some (case x_video_title r of
                      None \<Rightarrow> '' ''
                    | Some t \<Rightarrow> if t = '''' then '' '' else t))
   \<and> displayedTitle (fst (handleConvert g API_BASE (always r) (handleChange Title t s)))
       = displayedTitle (fst (handleConvert g API_BASE (always r) s))
   \<and> displayedTitle (handleChange Title t s) = displayedTitle s
   \<and> displayedTitle (fst (handleDownload g API_BASE fetch s)) = displayedTitle s
   \<and> (map filename (snd (snd (handleDownload g API_BASE fetch s))) = []
      \<or> map filename (snd (snd (handleDownload g API_BASE fetch s)))
          = [(if title (formData s) = '''' then ''download'' else title (formData s)) @ ''.mp3''])"
proof -
  have a: "matches_youtube (url (formData s))
      \<and> fetch (convert_request API_BASE (formData s)) = Resolved r \<and> ok r \<and> blob r = Inr u
    \<Longrightarrow> isConverted (fst (handleConvert g API_BASE fetch s))
        \<and> displayedTitle (fst (handleConvert g API_BASE fetch s))
            = Some (case x_video_title r of
                      None \<Rightarrow> '' ''
                    | Some t \<Rightarrow> if t = '''' then '' '' else t)"
    using handleConvert_success [of s fetch API_BASE r u g]
    by (auto simp: displayedTitle_def or_default_def or_string_def split: option.splits)
  have b: "displayedTitle (fst (handleConvert g API_BASE (always r) (handleChange Title t s)))
       = displayedTitle (fst (handleConvert g API_BASE (always r) s))"
    using handleConvert_title_independent [of g API_BASE r t s] by (simp add: displayedTitle_def)
  have c: "displayedTitle (handleChange Title t s) = displayedTitle s"
    by (simp add: displayedTitle_def handleChange_def)
  show ?thesis
    using a b c displayedTitle_handleDownload [of g API_BASE fetch s]
      handleDownload_filename [of g API_BASE fetch s]
    by blast
qed

theorem displayed_title_from_header_witness:
  "matches_youtube (url (formData (with_url ''https://youtube.com/watch?v=abc'')))
   \<and> ok (mp3_response (Some ''Video''))
   \<and> displayedTitle (fst (handleConvert example_engine example_api_base
                            (always (mp3_response (Some ''Video'')))
                            (with_url ''https://youtube.com/watch?v=abc''))) = Some ''Video''"
proof -
  have h: "matches_youtube (url (formData (with_url ''https://youtube.com/watch?v=abc'')))"
    "always (mp3_response (Some ''Video''))
       (convert_request example_api_base (formData (with_url ''https://youtube.com/watch?v=abc'')))
     = Resolved (mp3_response (Some ''Video''))"
    "ok (mp3_response (Some ''Video''))"
    "blob (mp3_response (Some ''Video'')) = Inr ''blob:mp3''"
    "x_video_title (mp3_response (Some ''Video'')) = Some ''Video''"
    by (simp_all add: with_url_def handleChange_def matches_youtube_def always_def
        mp3_response_def ok_def)
  show ?thesis
    using h displayed_title_from_header [of "with_url ''https://youtube.com/watch?v=abc''"
        "always (mp3_response (Some ''Video''))" example_api_base
        "mp3_response (Some ''Video'')" "''blob:mp3''" example_engine]
    by simp
qed

text \<open>
  C6, as the claim states it: the displayed title is exactly the title of the header,
  and a single space only when the header is absent. A response whose X-Video-Title
  header is present and empty gives the displayed title of one space.
\<close>

theorem displayed_title_counterexample:
  "x_video_title (mp3_response (Some '''')) = Some ''''
   \<and> displayedTitle (converted (Some '''')) = Some '' ''
   \<and> displayedTitle (converted (Some '''')) \<noteq> x_video_title (mp3_response (Some ''''))"
  by (simp add: mp3_response_def converted_state displayedTitle_def or_default_def
      or_string_def)

section \<open>Failed responses\<close>





section \<open>Comparisons, minimum and maximum\<close>

lemma round64_not_NaN [simp]: "round64 x \<noteq> NaN"
  by (simp add: round64_def Let_def)

lemma num_le_refl: "a \<noteq> NaN \<Longrightarrow> num_le a a"
  by (simp add: num_le_def)

lemma num_le_Num [simp]: "num_le (Num x) (Num y) \<longleftrightarrow> x \<le> y"
  by (auto simp: num_le_def)

lemma num_le_Infinity [simp]: "num_le a Infinity \<longleftrightarrow> a \<noteq> NaN"
  by (cases a) (simp_all add: num_le_def)






lemma round64_small_whole [simp]:
  "round64 0 = Num 0" "round64 1 = Num 1" "round64 (- 1) = Num (- 1)"
  "\<bar>numeral w :: real\<bar> \<le> 2 ^ 53 \<Longrightarrow> round64 (numeral w) = Num (numeral w)"
  "\<bar>numeral w :: real\<bar> \<le> 2 ^ 53 \<Longrightarrow> round64 (- numeral w) = Num (- numeral w)"
  by (simp_all add: round64_whole)

section \<open>The value a time input commits\<close>











section \<open>The trim window\<close>










section \<open>The end of the preview\<close>






end
